theory Spec2Isabelle
  imports Main "HOL-Library.Word"
begin

section \<open>The command engine of P4API (p4\_api.h)\<close>

text \<open>
  \<^verbatim>\<open>P4API::RunEx\<close> dispatches one command through the Helix client, retries it
  while the connection is dropped or the receiver holds an error, leaves the process
  on an unrecoverable fault, counts the command and refreshes an old connection.

  The engine is embedded by explicit state passing. What it calls but does not define
  (the Helix \<^verbatim>\<open>ClientApi\<close>, the receiver type \<^verbatim>\<open>T\<close>, the opening and the closing of
  the connection) is a parameter of the model: a record of functions over an arbitrary
  connection state \<open>'w\<close> and an arbitrary receiver \<open>'r\<close>. \<^verbatim>\<open>std::exit(1)\<close> is the
  outcome \<open>Exited\<close>.

  The logging macros \<^verbatim>\<open>ERR\<close>, \<^verbatim>\<open>WARN\<close> and \<^verbatim>\<open>SUCCESS\<close> only print and are left
  out, and with them the string \<^verbatim>\<open>argsString\<close>, which only they read. The arguments
  reach the client through \<^verbatim>\<open>c_str()\<close>; the strings of the model are the arguments
  as the client reads them.
\<close>

subsection \<open>Machine integers\<close>

text \<open>
  A C++ \<^verbatim>\<open>int\<close> (\<^verbatim>\<open>m_Usage\<close>, \<^verbatim>\<open>retries\<close>, \<^verbatim>\<open>refreshRetries\<close>, the two
  configuration values) is a word of 32 bits read in two's complement: \<open>sint\<close> is its
  value, \<open><s\<close> and \<open>\<le>s\<close> compare values, \<open>+\<close> and \<open>-\<close> wrap around. C++ leaves
  the overflow of an \<^verbatim>\<open>int\<close> undefined; the model gives it the wrap-around of the usual
  builds, so that \<^verbatim>\<open>retries--\<close> at \<open>- 2 ^ 31\<close> gives \<open>2 ^ 31 - 1\<close> and
  \<^verbatim>\<open>m_Usage++\<close> at \<open>2 ^ 31 - 1\<close> gives \<open>- 2 ^ 31\<close>.
\<close>

type_synonym int32 = "32 word"

subsection \<open>Errors and receivers\<close>

text \<open>
  Modelled from the spec: the class \<^verbatim>\<open>Error\<close> of the Helix API (reached through
  common.h, which is not among the sources). The spec gives it three levels, none,
  recoverable and fatal, read through \<^verbatim>\<open>IsError()\<close> and \<^verbatim>\<open>IsFatal()\<close>.
\<close>

datatype severity = NoError | Recoverable | Fatal

text \<open>Modelled from the spec: \<^verbatim>\<open>Error::IsError()\<close>, true of both kinds of error.\<close>

fun IsError :: "severity \<Rightarrow> bool" where
  "IsError NoError = False"
| "IsError Recoverable = True"
| "IsError Fatal = True"

text \<open>Modelled from the spec: \<^verbatim>\<open>Error::IsFatal()\<close>, true of the fatal kind only.\<close>

fun IsFatal :: "severity \<Rightarrow> bool" where
  "IsFatal NoError = False"
| "IsFatal Recoverable = False"
| "IsFatal Fatal = True"

subsection \<open>The collaborators of the engine\<close>

text \<open>
  \<open>api_Run\<close> is \<^verbatim>\<open>m_ClientAPI.SetArgv(...)\<close> followed by
  \<^verbatim>\<open>m_ClientAPI.Run(command, clientUser.get())\<close>: it changes the connection and
  writes into the receiver it is given. \<open>api_Dropped\<close> is \<^verbatim>\<open>m_ClientAPI.Dropped()\<close>,
  \<open>new_T\<close> is \<^verbatim>\<open>new T()\<close>, \<open>GetError\<close> is \<^verbatim>\<open>Result::GetError\<close> (result.h), which
  returns the receiver's \<^verbatim>\<open>m_Error\<close>. \<open>Initialize\<close> and \<open>Deinitialize\<close> are what
  \<^verbatim>\<open>P4API::Initialize\<close> and \<^verbatim>\<open>P4API::Deinitialize\<close> do to the connection, and the
  \<^verbatim>\<open>bool\<close> they return.
\<close>

record ('w, 'r) env =
  api_Run :: "'w \<Rightarrow> string \<Rightarrow> string list \<Rightarrow> 'r \<Rightarrow> 'w \<times> 'r"
  api_Dropped :: "'w \<Rightarrow> bool"
  new_T :: "'r"
  GetError :: "'r \<Rightarrow> severity"
  Initialize :: "'w \<Rightarrow> 'w \<times> bool"
  Deinitialize :: "'w \<Rightarrow> 'w \<times> bool"

text \<open>
  Modelled from the spec: what \<^verbatim>\<open>P4API::Reinitialize\<close> (declared in p4\_api.h, defined
  in a file that is not among the sources) does to the connection. By the spec it is
  "\<^verbatim>\<open>Deinitialize\<close> followed by \<^verbatim>\<open>Initialize\<close>" and "returns success/failure": the
  connection is closed, then opened again, and the call succeeds when both did.
\<close>

definition Reinitialize :: "('w, 'r) env \<Rightarrow> 'w \<Rightarrow> 'w \<times> bool" where
  "Reinitialize env w =
     (case Deinitialize env w of
        (w1, closed) \<Rightarrow>
          (case Initialize env w1 of
             (w2, opened) \<Rightarrow> (w2, closed \<and> opened)))"

text \<open>The static members \<^verbatim>\<open>P4API::CommandRetries\<close> and \<^verbatim>\<open>P4API::CommandRefreshThreshold\<close>.\<close>

record config =
  CommandRetries :: int32
  CommandRefreshThreshold :: int32

subsection \<open>The session\<close>

text \<open>
  The calls that \<^verbatim>\<open>RunEx\<close> makes are written to a log, one entry for a call, in the
  order of the source: the construction of a receiver (which drops the one before it), a
  dispatch, a wait in seconds, a call of \<^verbatim>\<open>Reinitialize()\<close> with what it returned, a call
  of \<^verbatim>\<open>Deinitialize()\<close>, the exit of the process. What \<^verbatim>\<open>Reinitialize()\<close> does inside,
  the closing of the connection included, is part of its one entry.
\<close>

datatype event =
    EvNewReceiver
  | EvDispatch string "string list"
  | EvSleep nat
  | EvReinitialize bool
  | EvDeinitialize
  | EvExit int

text \<open>
  The members of \<^verbatim>\<open>class P4API\<close> that the engine reads or writes; \<open>events\<close> is the
  log, which the class does not have.
\<close>

record 'w P4API =
  m_ClientAPI :: "'w"
  m_Usage :: int32
  events :: "event list"

text \<open>
  Modelled from the spec: the body of \<^verbatim>\<open>P4API::Reinitialize\<close>, as a step of the
  session. It rebuilds the connection and leaves the usage counter alone: by the spec the
  counter is "mutated only by CommandExecutor", and a refresh goes on "without resetting
  the usage counter".
\<close>

definition P4API_Reinitialize :: "('w, 'r) env \<Rightarrow> 'w P4API \<Rightarrow> 'w P4API \<times> bool" where
  "P4API_Reinitialize env s =
     (case Reinitialize env (m_ClientAPI s) of
        (w, ok) \<Rightarrow> (s\<lparr>m_ClientAPI := w, events := events s @ [EvReinitialize ok]\<rparr>, ok))"

text \<open>
  Modelled from the spec: the body of \<^verbatim>\<open>P4API::Deinitialize\<close>, as a step of the
  session. It closes the connection and leaves the usage counter alone.
\<close>

definition P4API_Deinitialize :: "('w, 'r) env \<Rightarrow> 'w P4API \<Rightarrow> 'w P4API \<times> bool" where
  "P4API_Deinitialize env s =
     (case Deinitialize env (m_ClientAPI s) of
        (w, ok) \<Rightarrow> (s\<lparr>m_ClientAPI := w, events := events s @ [EvDeinitialize]\<rparr>, ok))"

text \<open>\<^verbatim>\<open>std::this_thread::sleep_for(std::chrono::seconds(n))\<close>.\<close>

definition sleep_for :: "nat \<Rightarrow> 'w P4API \<Rightarrow> 'w P4API" where
  "sleep_for n s = s\<lparr>events := events s @ [EvSleep n]\<rparr>"

text \<open>
  \<^verbatim>\<open>clientUser = std::unique_ptr<T>(new T()); m_ClientAPI.SetArgv(...);
  m_ClientAPI.Run(command, clientUser.get());\<close> (lines 106 to 109 and 133 to 136).
\<close>

definition dispatch ::
  "('w, 'r) env \<Rightarrow> string \<Rightarrow> string list \<Rightarrow> 'w P4API \<Rightarrow> 'w P4API \<times> 'r" where
  "dispatch env command stringArguments s =
     (case api_Run env (m_ClientAPI s) command stringArguments (new_T env) of
        (w, clientUser) \<Rightarrow>
          (s\<lparr>m_ClientAPI := w,
             events := events s @ [EvNewReceiver, EvDispatch command stringArguments]\<rparr>,
           clientUser))"

text \<open>The condition of the retry loop, line 112.\<close>

definition dropped_or_error :: "('w, 'r) env \<Rightarrow> 'w P4API \<Rightarrow> 'r \<Rightarrow> bool" where
  "dropped_or_error env s clientUser \<longleftrightarrow>
     api_Dropped env (m_ClientAPI s) \<or> IsError (GetError env clientUser)"

text \<open>The condition of the exit after the retry loop, line 141.\<close>

definition dropped_or_fatal :: "('w, 'r) env \<Rightarrow> 'w P4API \<Rightarrow> 'r \<Rightarrow> bool" where
  "dropped_or_fatal env s clientUser \<longleftrightarrow>
     api_Dropped env (m_ClientAPI s) \<or> IsFatal (GetError env clientUser)"

subsection \<open>The retry loop\<close>

text \<open>One turn of the body of the loop, lines 119 to 136, without the test of line 114.\<close>

definition retry_body ::
  "('w, 'r) env \<Rightarrow> string \<Rightarrow> string list \<Rightarrow> 'w P4API \<Rightarrow> 'w P4API \<times> 'r" where
  "retry_body env command stringArguments s =
     dispatch env command stringArguments
       (fst (P4API_Reinitialize env (sleep_for 5 s)))"

text \<open>
  The loop of lines 112 to 139. The only test of the budget is \<^verbatim>\<open>retries == 0\<close>, and
  every turn takes one from a word of 32 bits, so the loop ends after at most as many
  turns as the budget read without sign: that is the measure of the recursion.
\<close>

function retry_loop ::
  "('w, 'r) env \<Rightarrow> string \<Rightarrow> string list \<Rightarrow> 'w P4API \<Rightarrow> 'r \<Rightarrow> int32 \<Rightarrow> 'w P4API \<times> 'r"
where
  "retry_loop env command stringArguments s clientUser retries =
     (if dropped_or_error env s clientUser then
        if retries = 0 then (s, clientUser)
        else
          (case retry_body env command stringArguments s of
             (s', clientUser') \<Rightarrow>
               retry_loop env command stringArguments s' clientUser' (retries - 1))
      else (s, clientUser))"
  by pat_completeness auto
termination
  by (relation "measure (\<lambda>(env, command, stringArguments, s, clientUser, retries). unat retries)")
     (auto simp: unat_minus_one unat_gt_0)

declare retry_loop.simps [simp del]

subsection \<open>The refresh loop\<close>

text \<open>
  The loop of lines 152 to 164. It returns the session and the value of
  \<^verbatim>\<open>refreshRetries\<close> at its end, which line 166 reads.
\<close>

function refresh_loop :: "('w, 'r) env \<Rightarrow> 'w P4API \<Rightarrow> int32 \<Rightarrow> 'w P4API \<times> int32" where
  "refresh_loop env s refreshRetries =
     (if 0 <s refreshRetries then
        (case P4API_Reinitialize env s of
           (s', ok) \<Rightarrow>
             if ok then (s', refreshRetries)
             else refresh_loop env (sleep_for 5 s') (refreshRetries - 1))
      else (s, refreshRetries))"
  by pat_completeness auto
termination
proof (relation "measure (\<lambda>(env, s, refreshRetries). unat refreshRetries)", goal_cases)
  case 1
  show ?case by simp
next
  case (2 env s refreshRetries s' ok)
  from 2(1) have "refreshRetries \<noteq> 0" by (auto simp: word_sless_alt)
  then show ?case by (simp add: unat_minus_one unat_gt_0)
qed

declare refresh_loop.simps [simp del]

subsection \<open>RunEx and Run\<close>

datatype ('w, 'r) outcome =
    Returned "'w P4API" 'r
  | Exited "'w P4API"

text \<open>Lines 148 to 173: the usage counter, the refresh and the return.\<close>

definition count_and_refresh ::
  "('w, 'r) env \<Rightarrow> config \<Rightarrow> 'w P4API \<Rightarrow> 'r \<Rightarrow> ('w, 'r) outcome" where
  "count_and_refresh env cfg s clientUser =
     (let s1 = s\<lparr>m_Usage := m_Usage s + 1\<rparr> in
      if CommandRefreshThreshold cfg <s m_Usage s1 then
        (case refresh_loop env s1 (CommandRetries cfg) of
           (s2, refreshRetries) \<Rightarrow>
             if refreshRetries = 0 then Exited (s2\<lparr>events := events s2 @ [EvExit 1]\<rparr>)
             else Returned s2 clientUser)
      else Returned s1 clientUser)"

text \<open>Lines 141 to 173: everything after the retry loop.\<close>

definition after_retries ::
  "('w, 'r) env \<Rightarrow> config \<Rightarrow> 'w P4API \<Rightarrow> 'r \<Rightarrow> ('w, 'r) outcome" where
  "after_retries env cfg s clientUser =
     (if dropped_or_fatal env s clientUser then
        (case P4API_Deinitialize env s of
           (s', ok) \<Rightarrow> Exited (s'\<lparr>events := events s' @ [EvExit 1]\<rparr>))
      else count_and_refresh env cfg s clientUser)"

definition RunEx ::
  "('w, 'r) env \<Rightarrow> config \<Rightarrow> string \<Rightarrow> string list \<Rightarrow> int32 \<Rightarrow> 'w P4API
     \<Rightarrow> ('w, 'r) outcome" where
  "RunEx env cfg command stringArguments commandRetries s =
     (case dispatch env command stringArguments s of
        (s0, clientUser0) \<Rightarrow>
          (case retry_loop env command stringArguments s0 clientUser0 commandRetries of
             (s1, clientUser) \<Rightarrow> after_retries env cfg s1 clientUser))"

text \<open>\<^verbatim>\<open>P4API::Run\<close>, line 177: the budget is the global one.\<close>

definition Run ::
  "('w, 'r) env \<Rightarrow> config \<Rightarrow> string \<Rightarrow> string list \<Rightarrow> 'w P4API \<Rightarrow> ('w, 'r) outcome" where
  "Run env cfg command stringArguments s =
     RunEx env cfg command stringArguments (CommandRetries cfg) s"

subsection \<open>Observations on the log\<close>

text \<open>The session that a call ends with, returned or not.\<close>

fun session_of :: "('w, 'r) outcome \<Rightarrow> 'w P4API" where
  "session_of (Returned s clientUser) = s"
| "session_of (Exited s) = s"

text \<open>The number of calls of \<^verbatim>\<open>Reinitialize()\<close> in a log.\<close>

fun is_Reinitialize :: "event \<Rightarrow> bool" where
  "is_Reinitialize (EvReinitialize ok) = True"
| "is_Reinitialize e = False"

definition reinitialize_calls :: "event list \<Rightarrow> nat" where
  "reinitialize_calls evs = length (filter is_Reinitialize evs)"

text \<open>What one turn of the retry loop adds to the log, \<open>ok\<close> being what \<^verbatim>\<open>Reinitialize()\<close> returned.\<close>

definition retry_events :: "string \<Rightarrow> string list \<Rightarrow> bool \<Rightarrow> event list" where
  "retry_events command args ok =
     [EvSleep 5, EvReinitialize ok, EvNewReceiver, EvDispatch command args]"

text \<open>
  The session and the receiver after the first dispatch of lines 106 to 109 and \<open>k\<close>
  turns of the body of the retry loop.
\<close>

fun after_attempts ::
  "('w, 'r) env \<Rightarrow> string \<Rightarrow> string list \<Rightarrow> 'w P4API \<Rightarrow> nat \<Rightarrow> 'w P4API \<times> 'r" where
  "after_attempts env command args s 0 = dispatch env command args s"
| "after_attempts env command args s (Suc k) =
     retry_body env command args (fst (after_attempts env command args s k))"

subsection \<open>A server that follows a script\<close>

text \<open>
  A concrete collaborator, on which the engine can be run: the connection counts the
  dispatches, the openings and the closings it has seen; the \<open>n\<close>-th dispatch is
  answered by \<open>answer n\<close> (whether the transport dropped, and the error written into the
  receiver), the \<open>n\<close>-th opening returns \<open>opens n\<close>, a closing always succeeds. A
  receiver is its error.
\<close>

record world =
  n_dispatch :: nat
  n_init :: nat
  n_deinit :: nat
  is_dropped :: bool

definition scripted ::
  "(nat \<Rightarrow> bool \<times> severity) \<Rightarrow> (nat \<Rightarrow> bool) \<Rightarrow> (world, severity) env" where
  "scripted answer opens =
     \<lparr>api_Run = (\<lambda>w command args r.
         (w\<lparr>n_dispatch := n_dispatch w + 1, is_dropped := fst (answer (n_dispatch w))\<rparr>,
          snd (answer (n_dispatch w)))),
      api_Dropped = is_dropped,
      new_T = NoError,
      GetError = (\<lambda>r. r),
      Initialize = (\<lambda>w. (w\<lparr>n_init := n_init w + 1\<rparr>, opens (n_init w))),
      Deinitialize = (\<lambda>w. (w\<lparr>n_deinit := n_deinit w + 1\<rparr>, True))\<rparr>"

definition session0 :: "world P4API" where
  "session0 = \<lparr>m_ClientAPI = \<lparr>n_dispatch = 0, n_init = 0, n_deinit = 0, is_dropped = False\<rparr>,
               m_Usage = 0, events = []\<rparr>"

text \<open>
  Five servers: one whose first answer is a recoverable error, one that always answers
  well, one that answers well but cannot be reconnected, one that always answers with a
  recoverable error, one whose transport is always dropped.
\<close>

definition flaky_server :: "(world, severity) env" where
  "flaky_server =
     scripted (\<lambda>n. if n = 0 then (False, Recoverable) else (False, NoError)) (\<lambda>n. True)"

definition healthy_server :: "(world, severity) env" where
  "healthy_server = scripted (\<lambda>n. (False, NoError)) (\<lambda>n. True)"

definition no_reconnect_server :: "(world, severity) env" where
  "no_reconnect_server = scripted (\<lambda>n. (False, NoError)) (\<lambda>n. False)"

definition failing_server :: "(world, severity) env" where
  "failing_server = scripted (\<lambda>n. (False, Recoverable)) (\<lambda>n. True)"

definition dropped_server :: "(world, severity) env" where
  "dropped_server = scripted (\<lambda>n. (True, NoError)) (\<lambda>n. False)"

section \<open>The client view\<close>

text \<open>
  Modelled from the spec: the class \<^verbatim>\<open>FileMap\<close> (commands/file\_map.h) behind the
  member \<^verbatim>\<open>m_ClientMapping\<close>, and the body of
  \<^verbatim>\<open>P4API::IsDepotPathUnderClientSpec\<close>, which p4\_api.h only declares (line 64);
  neither is among the sources. By the spec a view is an ordered list of rules, each a
  depot path pattern, a client path pattern and an inclusion flag, and a depot path is
  under the client spec when the last rule of the list that matches it includes it
  ("last-match-wins over the ordered rule list"). The spec does not say how a path is
  matched against a pattern, so the matcher is a parameter.
\<close>

record view_rule =
  depot_pattern :: string
  client_pattern :: string
  included :: bool

text \<open>
  Modelled from the spec: the last match wins. One pass over the rules in their order; a
  rule that matches replaces what was found before it.
\<close>

definition last_match ::
  "(string \<Rightarrow> string \<Rightarrow> bool) \<Rightarrow> view_rule list \<Rightarrow> string \<Rightarrow> view_rule option" where
  "last_match matches m_ClientMapping depotPath =
     foldl (\<lambda>found rule. if matches (depot_pattern rule) depotPath then Some rule else found)
       None m_ClientMapping"

text \<open>
  Modelled from the spec: \<^verbatim>\<open>P4API::IsDepotPathUnderClientSpec\<close>. A path that no rule
  matches is not under the client spec; otherwise the flag of the last rule that matches
  decides.
\<close>

definition IsDepotPathUnderClientSpec ::
  "(string \<Rightarrow> string \<Rightarrow> bool) \<Rightarrow> view_rule list \<Rightarrow> string \<Rightarrow> bool" where
  "IsDepotPathUnderClientSpec matches m_ClientMapping depotPath =
     (case last_match matches m_ClientMapping depotPath of
        None \<Rightarrow> False
      | Some rule \<Rightarrow> included rule)"

text \<open>
  Modelled from the spec: a matcher for the patterns of the spec's examples (P5, P6), on
  which the predicate can be run. The characters of the pattern stand for themselves,
  and a pattern that ends in \<^verbatim>\<open>...\<close> matches whatever follows.
\<close>

fun dots_match :: "string \<Rightarrow> string \<Rightarrow> bool" where
  "dots_match [] path = (path = [])"
| "dots_match (c # pattern) path =
     (if c # pattern = ''...'' then True
      else (case path of [] \<Rightarrow> False | d # rest \<Rightarrow> c = d \<and> dots_match pattern rest))"

text \<open>The two rules of the spec's example P6, in their order.\<close>

definition main_view :: "view_rule list" where
  "main_view =
     [\<lparr>depot_pattern = ''//depot/main/...'', client_pattern = ''//ws/main/...'',
       included = True\<rparr>,
      \<lparr>depot_pattern = ''//depot/main/secret/...'', client_pattern = ''//ws/main/secret/...'',
       included = False\<rparr>]"

section \<open>Properties of the engine\<close>

subsection \<open>Arithmetic of 32-bit integers\<close>

lemma sint_dec: "0 < sint (r :: int32) \<Longrightarrow> sint (r - 1) = sint r - 1"
proof -
  assume a: "0 < sint r"
  have b: "sint r < 2 ^ 31" using sint_lt [of r] by simp
  have "sint (r - 1) = signed_take_bit 31 (sint r - 1)"
    by (simp add: sint_word_ariths)
  also have "\<dots> = sint r - 1"
    using a b by (intro signed_take_bit_int_eq_self) simp_all
  finally show ?thesis .
qed


lemma uint_sint_nonneg: "0 \<le> sint (r :: int32) \<Longrightarrow> uint r = sint r"
proof -
  assume a: "0 \<le> sint r"
  have b: "sint r < 2 ^ 32" using sint_lt [of r] by simp
  have "uint r = take_bit 32 (sint r)" by (simp add: uint_sint)
  also have "\<dots> = sint r" using a b by (rule take_bit_int_eq_self)
  finally show ?thesis .
qed

lemma unat_nonnegative: "0 \<le> sint (r :: int32) \<Longrightarrow> unat r = nat (sint r)"
  by (simp add: uint_sint_nonneg [symmetric])

lemma unat_negative: "sint (r :: int32) < 0 \<Longrightarrow> unat r = nat (4294967296 + sint r)"
proof -
  assume a: "sint r < 0"
  have b: "- (2 ^ 31) \<le> sint r" using sint_ge [of r] by simp
  have "uint r = take_bit 32 (sint r)" by (simp add: uint_sint)
  also have "\<dots> = sint r mod 2 ^ 32" by (simp add: take_bit_eq_mod)
  also have "\<dots> = (sint r + 2 ^ 32) mod 2 ^ 32" by simp
  also have "\<dots> = sint r + 2 ^ 32" using a b by (intro mod_pos_pos_trivial) simp_all
  finally have "uint r = sint r + 2 ^ 32" .
  then have "nat (uint r) = nat (sint r + 2 ^ 32)" by simp
  then show ?thesis by (simp add: add.commute)
qed

lemma budget_not_spent:
  assumes "k < unat (r :: int32)"
  shows "r \<noteq> of_nat k"
proof
  assume "r = of_nat k"
  then have "unat r = unat (of_nat k :: int32)" by simp
  also have "\<dots> \<le> k" by (simp add: unat_of_nat)
  finally show False using assms by simp
qed

subsection \<open>The loops, one turn at a time\<close>

lemma retry_loop_clean:
  "\<not> dropped_or_error env s clientUser \<Longrightarrow>
     retry_loop env command args s clientUser retries = (s, clientUser)"
  by (subst retry_loop.simps) simp

lemma retry_loop_zero:
  "retry_loop env command args s clientUser 0 = (s, clientUser)"
  by (subst retry_loop.simps) simp

lemma retry_loop_step:
  "dropped_or_error env s clientUser \<Longrightarrow> retries \<noteq> 0 \<Longrightarrow>
     retry_loop env command args s clientUser retries =
       retry_loop env command args (fst (retry_body env command args s))
         (snd (retry_body env command args s)) (retries - 1)"
  by (subst retry_loop.simps) (simp add: case_prod_beta)

lemma events_P4API_Reinitialize:
  "events (fst (P4API_Reinitialize env s)) =
     events s @ [EvReinitialize (snd (Reinitialize env (m_ClientAPI s)))]"
  by (simp add: P4API_Reinitialize_def case_prod_beta)

lemma snd_P4API_Reinitialize:
  "snd (P4API_Reinitialize env s) = snd (Reinitialize env (m_ClientAPI s))"
  by (simp add: P4API_Reinitialize_def case_prod_beta)

lemma m_Usage_P4API_Reinitialize:
  "m_Usage (fst (P4API_Reinitialize env s)) = m_Usage s"
  by (simp add: P4API_Reinitialize_def case_prod_beta)

lemma m_Usage_sleep_for: "m_Usage (sleep_for n s) = m_Usage s"
  by (simp add: sleep_for_def)

lemma events_sleep_for: "events (sleep_for n s) = events s @ [EvSleep n]"
  by (simp add: sleep_for_def)

lemma m_ClientAPI_sleep_for: "m_ClientAPI (sleep_for n s) = m_ClientAPI s"
  by (simp add: sleep_for_def)

lemma m_ClientAPI_dispatch:
  "m_ClientAPI (fst (dispatch env command args s)) =
     fst (api_Run env (m_ClientAPI s) command args (new_T env))"
  by (simp add: dispatch_def case_prod_beta)

lemma snd_dispatch:
  "snd (dispatch env command args s) =
     snd (api_Run env (m_ClientAPI s) command args (new_T env))"
  by (simp add: dispatch_def case_prod_beta)

lemma events_dispatch:
  "events (fst (dispatch env command args s)) =
     events s @ [EvNewReceiver, EvDispatch command args]"
  by (simp add: dispatch_def case_prod_beta)

lemma m_Usage_dispatch:
  "m_Usage (fst (dispatch env command args s)) = m_Usage s"
  by (simp add: dispatch_def case_prod_beta)

lemma events_retry_body:
  "events (fst (retry_body env command args s)) =
     events s @ [EvSleep 5, EvReinitialize (snd (Reinitialize env (m_ClientAPI s))),
                 EvNewReceiver, EvDispatch command args]"
  by (simp add: retry_body_def events_dispatch events_P4API_Reinitialize events_sleep_for
      m_ClientAPI_sleep_for)

lemma m_Usage_retry_body:
  "m_Usage (fst (retry_body env command args s)) = m_Usage s"
  by (simp add: retry_body_def m_Usage_dispatch m_Usage_P4API_Reinitialize m_Usage_sleep_for)

lemma dispatch_signalled:
  assumes "\<forall>w r. api_Dropped env (fst (api_Run env w command args r)) \<or>
        IsError (GetError env (snd (api_Run env w command args r)))"
  shows "dropped_or_error env (fst (dispatch env command args s))
           (snd (dispatch env command args s))"
  using assms
  by (simp add: dropped_or_error_def m_ClientAPI_dispatch snd_dispatch)

lemma after_attempts_signalled:
  assumes "\<forall>w r. api_Dropped env (fst (api_Run env w command args r)) \<or>
        IsError (GetError env (snd (api_Run env w command args r)))"
  shows "dropped_or_error env (fst (after_attempts env command args s k))
           (snd (after_attempts env command args s k))"
  using assms by (cases k) (simp_all add: dispatch_signalled retry_body_def)

lemma after_attempts_dropped:
  assumes "\<forall>w r. api_Dropped env (fst (api_Run env w command args r))"
  shows "api_Dropped env (m_ClientAPI (fst (after_attempts env command args s k)))"
  using assms by (cases k) (simp_all add: m_ClientAPI_dispatch retry_body_def)

lemma events_after_attempts:
  "\<exists>oks. length oks = k \<and>
     events (fst (after_attempts env command args s k)) =
       events s @ [EvNewReceiver, EvDispatch command args] @
       concat (map (retry_events command args) oks)"
proof (induction k)
  case 0
  show ?case by (simp add: events_dispatch)
next
  case (Suc k)
  then obtain oks where n: "length oks = k"
    and e: "events (fst (after_attempts env command args s k)) =
       events s @ [EvNewReceiver, EvDispatch command args] @
       concat (map (retry_events command args) oks)"
    by blast
  let ?ok = "snd (Reinitialize env (m_ClientAPI (fst (after_attempts env command args s k))))"
  have "events (fst (after_attempts env command args s (Suc k))) =
       events s @ [EvNewReceiver, EvDispatch command args] @
       concat (map (retry_events command args) (oks @ [?ok]))"
    using e by (simp add: events_retry_body retry_events_def)
  moreover have "length (oks @ [?ok]) = Suc k" using n by simp
  ultimately show ?case by blast
qed

lemma reinitialize_calls_append:
  "reinitialize_calls (xs @ ys) = reinitialize_calls xs + reinitialize_calls ys"
  by (simp add: reinitialize_calls_def)

lemma reinitialize_calls_retry_events:
  "reinitialize_calls (concat (map (retry_events command args) oks)) = length oks"
  by (induction oks) (simp_all add: reinitialize_calls_def retry_events_def)

lemma reinitialize_calls_after_attempts:
  "reinitialize_calls (events (fst (after_attempts env command args s k))) =
     reinitialize_calls (events s) + k"
  by (induction k)
    (simp_all add: events_dispatch events_retry_body reinitialize_calls_append,
     simp_all add: reinitialize_calls_def)

lemma retry_loop_after_attempts:
  assumes "\<forall>j<k. dropped_or_error env (fst (after_attempts env command args s j))
                     (snd (after_attempts env command args s j)) \<and> retries - of_nat j \<noteq> 0"
  shows "retry_loop env command args (fst (dispatch env command args s))
           (snd (dispatch env command args s)) retries =
         retry_loop env command args (fst (after_attempts env command args s k))
           (snd (after_attempts env command args s k)) (retries - of_nat k)"
  using assms
proof (induction k)
  case 0
  show ?case by simp
next
  case (Suc k)
  have "retry_loop env command args (fst (after_attempts env command args s k))
           (snd (after_attempts env command args s k)) (retries - of_nat k) =
        retry_loop env command args (fst (after_attempts env command args s (Suc k)))
           (snd (after_attempts env command args s (Suc k))) (retries - of_nat k - 1)"
    using Suc.prems by (subst retry_loop_step) simp_all
  with Suc show ?case by (simp add: algebra_simps)
qed

text \<open>
  While every dispatch leaves a signal set, the loop runs until the budget is spent: as
  many turns as the budget read without sign.
\<close>

lemma retry_loop_signalled:
  assumes "\<forall>w r. api_Dropped env (fst (api_Run env w command args r)) \<or>
        IsError (GetError env (snd (api_Run env w command args r)))"
  shows "retry_loop env command args (fst (dispatch env command args s))
           (snd (dispatch env command args s)) retries =
         after_attempts env command args s (unat retries)"
proof -
  have "\<forall>j<unat retries. dropped_or_error env (fst (after_attempts env command args s j))
          (snd (after_attempts env command args s j)) \<and> retries - of_nat j \<noteq> 0"
    using assms by (simp add: after_attempts_signalled budget_not_spent)
  then have "retry_loop env command args (fst (dispatch env command args s))
           (snd (dispatch env command args s)) retries =
         retry_loop env command args (fst (after_attempts env command args s (unat retries)))
           (snd (after_attempts env command args s (unat retries)))
           (retries - of_nat (unat retries))"
    by (rule retry_loop_after_attempts)
  then show ?thesis by (simp add: retry_loop_zero)
qed


subsection \<open>The refresh loop\<close>

lemma refresh_loop_nonpos:
  "\<not> 0 <s refreshRetries \<Longrightarrow> refresh_loop env s refreshRetries = (s, refreshRetries)"
  by (subst refresh_loop.simps) simp

lemma refresh_loop_success:
  "0 <s refreshRetries \<Longrightarrow> snd (Reinitialize env (m_ClientAPI s)) \<Longrightarrow>
     refresh_loop env s refreshRetries =
       (fst (P4API_Reinitialize env s), refreshRetries)"
  by (subst refresh_loop.simps) (simp add: P4API_Reinitialize_def case_prod_beta)

lemma refresh_loop_failure:
  "0 <s refreshRetries \<Longrightarrow> \<not> snd (Reinitialize env (m_ClientAPI s)) \<Longrightarrow>
     refresh_loop env s refreshRetries =
       refresh_loop env (sleep_for 5 (fst (P4API_Reinitialize env s))) (refreshRetries - 1)"
  by (subst refresh_loop.simps) (simp add: P4API_Reinitialize_def case_prod_beta)

lemma m_Usage_refresh_loop:
  "m_Usage (fst (refresh_loop env s refreshRetries)) = m_Usage s"
proof (induction env s refreshRetries rule: refresh_loop.induct)
  case (1 env s refreshRetries)
  show ?case
  proof (cases "0 <s refreshRetries")
    case False
    then show ?thesis by (simp add: refresh_loop_nonpos)
  next
    case True
    show ?thesis
    proof (cases "snd (Reinitialize env (m_ClientAPI s))")
      case ok: True
      with True show ?thesis
        by (simp add: refresh_loop_success m_Usage_P4API_Reinitialize)
    next
      case ko: False
      have "m_Usage (fst (refresh_loop env (sleep_for 5 (fst (P4API_Reinitialize env s)))
               (refreshRetries - 1))) =
            m_Usage (sleep_for 5 (fst (P4API_Reinitialize env s)))"
        using True ko
        by (intro "1.IH" [of "fst (P4API_Reinitialize env s)" "snd (P4API_Reinitialize env s)"])
           (simp_all add: snd_P4API_Reinitialize prod_eq_iff)
      with True ko show ?thesis
        by (simp add: refresh_loop_failure m_Usage_sleep_for m_Usage_P4API_Reinitialize)
    qed
  qed
qed

text \<open>
  The log of a refresh: failed calls, each followed by a wait, as many as the budget went
  down, and at the end the call that succeeded, if the budget is not used up.
\<close>

lemma refresh_loop_shape:
  "events (fst (refresh_loop env s refreshRetries)) =
     events s @
     concat (replicate (nat (sint refreshRetries - sint (snd (refresh_loop env s refreshRetries))))
               [EvReinitialize False, EvSleep 5]) @
     (if 0 <s snd (refresh_loop env s refreshRetries) then [EvReinitialize True] else []) \<and>
   sint (snd (refresh_loop env s refreshRetries)) \<le> sint refreshRetries \<and>
   (0 \<le> sint refreshRetries \<longrightarrow> 0 \<le> sint (snd (refresh_loop env s refreshRetries)))"
proof (induction env s refreshRetries rule: refresh_loop.induct)
  case (1 env s refreshRetries)
  show ?case
  proof (cases "0 <s refreshRetries")
    case False
    then show ?thesis by (simp add: refresh_loop_nonpos)
  next
    case True
    then have pos: "0 < sint refreshRetries" by (simp add: word_sless_alt)
    show ?thesis
    proof (cases "snd (Reinitialize env (m_ClientAPI s))")
      case ok: True
      with True show ?thesis
        by (simp add: refresh_loop_success events_P4API_Reinitialize)
    next
      case ko: False
      let ?s' = "sleep_for 5 (fst (P4API_Reinitialize env s))"
      let ?k = "snd (refresh_loop env ?s' (refreshRetries - 1))"
      have ih: "events (fst (refresh_loop env ?s' (refreshRetries - 1))) =
          events ?s' @
          concat (replicate (nat (sint (refreshRetries - 1) - sint ?k))
                    [EvReinitialize False, EvSleep 5]) @
          (if 0 <s ?k then [EvReinitialize True] else []) \<and>
          sint ?k \<le> sint (refreshRetries - 1) \<and>
          (0 \<le> sint (refreshRetries - 1) \<longrightarrow> 0 \<le> sint ?k)"
        using True ko
        by (intro "1.IH" [of "fst (P4API_Reinitialize env s)" "snd (P4API_Reinitialize env s)"])
           (simp_all add: snd_P4API_Reinitialize prod_eq_iff)
      have d: "sint (refreshRetries - 1) = sint refreshRetries - 1"
        using pos by (rule sint_dec)
      have n: "nat (sint refreshRetries - sint ?k) =
               Suc (nat (sint refreshRetries - 1 - sint ?k))"
        using ih d by linarith
      have e: "events ?s' = events s @ [EvReinitialize False, EvSleep 5]"
        using ko by (simp add: events_sleep_for events_P4API_Reinitialize)
      from True ko ih pos show ?thesis
        by (simp add: refresh_loop_failure n e d)
    qed
  qed
qed

lemma refresh_loop_events:
  "\<exists>xs. events (fst (refresh_loop env s refreshRetries)) = events s @ xs \<and>
        EvDeinitialize \<notin> set xs"
proof -
  let ?k = "snd (refresh_loop env s refreshRetries)"
  let ?xs = "concat (replicate (nat (sint refreshRetries - sint ?k))
                       [EvReinitialize False, EvSleep 5]) @
     (if 0 <s ?k then [EvReinitialize True] else [])"
  have "events (fst (refresh_loop env s refreshRetries)) = events s @ ?xs"
    using refresh_loop_shape [of env s refreshRetries] by simp
  moreover have "EvDeinitialize \<notin> set ?xs" by auto
  ultimately show ?thesis by blast
qed


subsection \<open>After the loops\<close>

lemma IsFatal_IsError: "IsFatal e \<Longrightarrow> IsError e"
  by (cases e) simp_all

lemma dropped_or_fatal_error:
  "dropped_or_fatal env s clientUser \<Longrightarrow> dropped_or_error env s clientUser"
  by (auto simp: dropped_or_fatal_def dropped_or_error_def IsFatal_IsError)

lemma after_retries_fatal:
  "dropped_or_fatal env s clientUser \<Longrightarrow>
     after_retries env cfg s clientUser =
       Exited (s\<lparr>m_ClientAPI := fst (Deinitialize env (m_ClientAPI s)),
                 events := events s @ [EvDeinitialize, EvExit 1]\<rparr>)"
  by (simp add: after_retries_def P4API_Deinitialize_def case_prod_beta)

lemma after_retries_pass:
  "\<not> dropped_or_fatal env s clientUser \<Longrightarrow>
     after_retries env cfg s clientUser = count_and_refresh env cfg s clientUser"
  by (simp add: after_retries_def)

lemma RunEx_after_retries:
  "RunEx env cfg command args commandRetries s =
     after_retries env cfg
       (fst (retry_loop env command args (fst (dispatch env command args s))
               (snd (dispatch env command args s)) commandRetries))
       (snd (retry_loop env command args (fst (dispatch env command args s))
               (snd (dispatch env command args s)) commandRetries))"
  by (simp add: RunEx_def case_prod_beta)

lemma count_and_refresh_below:
  "m_Usage s + 1 \<le>s CommandRefreshThreshold cfg \<Longrightarrow>
     count_and_refresh env cfg s clientUser = Returned (s\<lparr>m_Usage := m_Usage s + 1\<rparr>) clientUser"
  by (simp add: count_and_refresh_def Let_def word_sless_alt word_sle_eq)

lemma count_and_refresh_above:
  "CommandRefreshThreshold cfg <s m_Usage s + 1 \<Longrightarrow>
     count_and_refresh env cfg s clientUser =
       (if snd (refresh_loop env (s\<lparr>m_Usage := m_Usage s + 1\<rparr>) (CommandRetries cfg)) = 0
        then Exited (fst (refresh_loop env (s\<lparr>m_Usage := m_Usage s + 1\<rparr>) (CommandRetries cfg))
               \<lparr>events := events (fst (refresh_loop env (s\<lparr>m_Usage := m_Usage s + 1\<rparr>)
                             (CommandRetries cfg))) @ [EvExit 1]\<rparr>)
        else Returned (fst (refresh_loop env (s\<lparr>m_Usage := m_Usage s + 1\<rparr>) (CommandRetries cfg)))
               clientUser)"
  by (simp add: count_and_refresh_def Let_def case_prod_beta)

lemma threshold_cases:
  "m_Usage s + 1 \<le>s CommandRefreshThreshold cfg \<or> CommandRefreshThreshold cfg <s m_Usage s + 1"
  by (auto simp: word_sless_alt word_sle_eq)


lemma count_and_refresh_Exited:
  assumes "count_and_refresh env cfg s clientUser = Exited s'"
  shows "CommandRefreshThreshold cfg <s m_Usage s + 1 \<and> m_Usage s' = m_Usage s + 1 \<and>
         (\<exists>xs. events s' = events s @ xs @ [EvExit 1] \<and> EvDeinitialize \<notin> set xs)"
proof (cases "m_Usage s + 1 \<le>s CommandRefreshThreshold cfg")
  case True
  with assms show ?thesis by (simp add: count_and_refresh_below)
next
  case False
  with threshold_cases [of s cfg] have above: "CommandRefreshThreshold cfg <s m_Usage s + 1"
    by blast
  let ?s1 = "s\<lparr>m_Usage := m_Usage s + 1\<rparr>"
  from refresh_loop_events [of env ?s1 "CommandRetries cfg"] obtain xs where
    xs: "events (fst (refresh_loop env ?s1 (CommandRetries cfg))) = events s @ xs"
      "EvDeinitialize \<notin> set xs"
    by auto
  from above assms have
    "s' = fst (refresh_loop env ?s1 (CommandRetries cfg))
           \<lparr>events := events (fst (refresh_loop env ?s1 (CommandRetries cfg))) @ [EvExit 1]\<rparr>"
    by (simp add: count_and_refresh_above split: if_splits)
  then have "events s' = events s @ xs @ [EvExit 1]" and "m_Usage s' = m_Usage s + 1"
    using xs by (simp_all add: m_Usage_refresh_loop)
  with above xs show ?thesis by auto
qed

subsection \<open>Running the engine against a script\<close>

lemmas engine_defs =
  RunEx_def after_retries_def count_and_refresh_def dispatch_def retry_body_def
  P4API_Reinitialize_def P4API_Deinitialize_def Reinitialize_def sleep_for_def
  dropped_or_error_def dropped_or_fatal_def scripted_def session0_def
  word_sless_alt word_sle_eq

lemmas loop_steps =
  retry_loop_step retry_loop_zero retry_loop_clean
  refresh_loop_nonpos refresh_loop_success refresh_loop_failure

subsection \<open>A transport that stays dropped\<close>

lemma RunEx_dropped:
  assumes "\<forall>w r. api_Dropped env (fst (api_Run env w command args r))"
  shows "\<exists>s' oks.
     RunEx env cfg command args commandRetries s = Exited s' \<and>
     length oks = unat commandRetries \<and>
     events s' = events s @ [EvNewReceiver, EvDispatch command args] @
       concat (map (retry_events command args) oks) @ [EvDeinitialize, EvExit 1]"
proof -
  let ?n = "unat commandRetries"
  let ?s1 = "fst (after_attempts env command args s ?n)"
  let ?r1 = "snd (after_attempts env command args s ?n)"
  let ?s' = "?s1\<lparr>m_ClientAPI := fst (Deinitialize env (m_ClientAPI ?s1)),
                 events := events ?s1 @ [EvDeinitialize, EvExit 1]\<rparr>"
  have sig: "\<forall>w r. api_Dropped env (fst (api_Run env w command args r)) \<or>
        IsError (GetError env (snd (api_Run env w command args r)))"
    using assms by simp
  have l: "retry_loop env command args (fst (dispatch env command args s))
           (snd (dispatch env command args s)) commandRetries =
         after_attempts env command args s ?n"
    using sig by (rule retry_loop_signalled)
  have f: "dropped_or_fatal env ?s1 ?r1"
    using after_attempts_dropped [OF assms] by (simp add: dropped_or_fatal_def)
  have r: "RunEx env cfg command args commandRetries s = Exited ?s'"
    using f by (simp add: RunEx_after_retries l after_retries_fatal)
  from events_after_attempts [of ?n env command args s] obtain oks where
    "length oks = ?n" and "events ?s1 = events s @ [EvNewReceiver, EvDispatch command args] @
       concat (map (retry_events command args) oks)"
    by blast
  with r show ?thesis by auto
qed

lemma RunEx_dropped_calls:
  assumes "\<forall>w r. api_Dropped env (fst (api_Run env w command args r))"
  shows "reinitialize_calls (events (session_of (RunEx env cfg command args commandRetries s))) =
     reinitialize_calls (events s) + unat commandRetries"
proof -
  from RunEx_dropped [OF assms, of cfg commandRetries s] obtain s' oks where
    r: "RunEx env cfg command args commandRetries s = Exited s'"
    and n: "length oks = unat commandRetries"
    and e: "events s' = events s @ [EvNewReceiver, EvDispatch command args] @
       concat (map (retry_events command args) oks) @ [EvDeinitialize, EvExit 1]"
    by blast
  have z: "reinitialize_calls [EvNewReceiver, EvDispatch command args] = 0"
    "reinitialize_calls [EvDeinitialize, EvExit 1] = 0"
    by (simp_all add: reinitialize_calls_def)
  have "reinitialize_calls (events s') = reinitialize_calls (events s) + length oks"
    unfolding e
    by (simp only: reinitialize_calls_append reinitialize_calls_retry_events z)
  with r n show ?thesis by simp
qed

text \<open>
  Claim C2. When \<^verbatim>\<open>RunEx\<close> is called with a retry budget \<open>N \<ge> 0\<close> and every
  dispatch of the command leaves the transport dropped, the engine leaves the process,
  and its log is: the first dispatch, then exactly \<open>N\<close> turns, each of them a wait of
  five seconds, a call of \<^verbatim>\<open>Reinitialize()\<close>, a new receiver and a dispatch, then
  \<^verbatim>\<open>Deinitialize()\<close> and the exit. So \<^verbatim>\<open>Reinitialize()\<close> is called exactly \<open>N\<close>
  times, each time right after the wait.
\<close>

theorem RunEx_always_dropped:
  assumes "0 \<le>s commandRetries"
    and "\<forall>w r. api_Dropped env (fst (api_Run env w command args r))"
  shows "\<exists>s' oks.
     RunEx env cfg command args commandRetries s = Exited s' \<and>
     length oks = nat (sint commandRetries) \<and>
     events s' = events s @ [EvNewReceiver, EvDispatch command args] @
       concat (map (\<lambda>ok. [EvSleep 5, EvReinitialize ok, EvNewReceiver,
                            EvDispatch command args]) oks) @
       [EvDeinitialize, EvExit 1] \<and>
     reinitialize_calls (events s') =
       reinitialize_calls (events s) + nat (sint commandRetries)"
proof -
  have n: "unat commandRetries = nat (sint commandRetries)"
    using assms(1) by (intro unat_nonnegative) (simp add: word_sle_eq)
  from RunEx_dropped [OF assms(2), of cfg commandRetries s] obtain s' oks where
    r: "RunEx env cfg command args commandRetries s = Exited s'"
    and l: "length oks = unat commandRetries"
    and e: "events s' = events s @ [EvNewReceiver, EvDispatch command args] @
       concat (map (retry_events command args) oks) @ [EvDeinitialize, EvExit 1]"
    by blast
  have e': "events s' = events s @ [EvNewReceiver, EvDispatch command args] @
       concat (map (\<lambda>ok. [EvSleep 5, EvReinitialize ok, EvNewReceiver,
                            EvDispatch command args]) oks) @
       [EvDeinitialize, EvExit 1]"
    using e by (simp add: retry_events_def [abs_def])
  have "reinitialize_calls (events s') = reinitialize_calls (events s) + unat commandRetries"
    using RunEx_dropped_calls [OF assms(2), of cfg commandRetries s] r by simp
  with r l e' n show ?thesis by auto
qed

theorem RunEx_always_dropped_witness:
  "(0 :: int32) \<le>s 2 \<and>
   (\<forall>w r. api_Dropped dropped_server (fst (api_Run dropped_server w ''sync'' [] r))) \<and>
   (\<exists>s' oks.
     RunEx dropped_server \<lparr>CommandRetries = 2, CommandRefreshThreshold = 100\<rparr> ''sync'' [] 2
       session0 = Exited s' \<and>
     length oks = nat (sint (2 :: int32)) \<and>
     events s' = events session0 @ [EvNewReceiver, EvDispatch ''sync'' []] @
       concat (map (\<lambda>ok. [EvSleep 5, EvReinitialize ok, EvNewReceiver,
                            EvDispatch ''sync'' []]) oks) @
       [EvDeinitialize, EvExit 1] \<and>
     reinitialize_calls (events s') =
       reinitialize_calls (events session0) + nat (sint (2 :: int32)))"
proof -
  have h1: "(0 :: int32) \<le>s 2" by (simp add: word_sle_eq)
  have h2: "\<forall>w r. api_Dropped dropped_server (fst (api_Run dropped_server w ''sync'' [] r))"
    by (simp add: dropped_server_def scripted_def)
  from RunEx_always_dropped [OF h1 h2] h1 h2 show ?thesis by blast
qed

subsection \<open>A negative budget\<close>

text \<open>
  Claim C10, amended. When \<^verbatim>\<open>RunEx\<close> is called with a negative retry budget and every
  dispatch of the command leaves the transport dropped or an error in the receiver, the
  budget is not clamped to zero, and the test \<^verbatim>\<open>retries == 0\<close> does not succeed while
  the budget is negative; but the loop is not without bound. It makes exactly
  \<open>2 ^ 32 + commandRetries\<close> turns, each with its call of \<^verbatim>\<open>Reinitialize()\<close>: before each
  of them a signal is set and the remaining budget is not zero. On the way the budget
  passes \<open>- 2 ^ 31\<close>, where \<^verbatim>\<open>retries--\<close> overflows (which C++ leaves undefined) and
  wraps around, and it comes down to zero, where the loop ends and the call goes on with
  the check of line 141.
\<close>

theorem RunEx_negative_budget:
  assumes "commandRetries <s 0"
    and "\<forall>w r. api_Dropped env (fst (api_Run env w command args r)) \<or>
           IsError (GetError env (snd (api_Run env w command args r)))"
  shows "RunEx env cfg command args commandRetries s =
      after_retries env cfg
        (fst (after_attempts env command args s (unat commandRetries)))
        (snd (after_attempts env command args s (unat commandRetries))) \<and>
    int (unat commandRetries) = 2 ^ 32 + sint commandRetries \<and>
    reinitialize_calls (events (fst (after_attempts env command args s (unat commandRetries)))) =
      reinitialize_calls (events s) + unat commandRetries \<and>
    (\<forall>k < unat commandRetries.
       dropped_or_error env (fst (after_attempts env command args s k))
         (snd (after_attempts env command args s k)) \<and>
       commandRetries - of_nat k \<noteq> 0 \<and>
       retry_loop env command args (fst (dispatch env command args s))
         (snd (dispatch env command args s)) commandRetries =
       retry_loop env command args (fst (after_attempts env command args s k))
         (snd (after_attempts env command args s k)) (commandRetries - of_nat k))"
proof -
  have l: "retry_loop env command args (fst (dispatch env command args s))
           (snd (dispatch env command args s)) commandRetries =
         after_attempts env command args s (unat commandRetries)"
    using assms(2) by (rule retry_loop_signalled)
  have r: "RunEx env cfg command args commandRetries s =
      after_retries env cfg
        (fst (after_attempts env command args s (unat commandRetries)))
        (snd (after_attempts env command args s (unat commandRetries)))"
    by (simp add: RunEx_after_retries l)
  have neg: "sint commandRetries < 0"
    using assms(1) by (simp add: word_sless_alt)
  have lo: "- (2 ^ 31) \<le> sint commandRetries"
    using sint_ge [of commandRetries] by simp
  have n: "int (unat commandRetries) = 2 ^ 32 + sint commandRetries"
    using unat_negative [OF neg] lo by simp
  have turn: "dropped_or_error env (fst (after_attempts env command args s k))
         (snd (after_attempts env command args s k)) \<and>
       commandRetries - of_nat k \<noteq> 0 \<and>
       retry_loop env command args (fst (dispatch env command args s))
         (snd (dispatch env command args s)) commandRetries =
       retry_loop env command args (fst (after_attempts env command args s k))
         (snd (after_attempts env command args s k)) (commandRetries - of_nat k)"
    if "k < unat commandRetries" for k
  proof -
    have a: "\<forall>j<k. dropped_or_error env (fst (after_attempts env command args s j))
                     (snd (after_attempts env command args s j)) \<and>
                   commandRetries - of_nat j \<noteq> 0"
      using assms(2) that by (simp add: after_attempts_signalled budget_not_spent)
    have b: "commandRetries - of_nat k \<noteq> 0"
      using that by (simp add: budget_not_spent)
    from retry_loop_after_attempts [OF a] b assms(2) show ?thesis
      by (simp add: after_attempts_signalled)
  qed
  from r n turn show ?thesis
    by (simp add: reinitialize_calls_after_attempts)
qed

theorem RunEx_negative_budget_witness:
  "(- 1 :: int32) <s 0 \<and>
   (\<forall>w r. api_Dropped dropped_server (fst (api_Run dropped_server w ''changes'' [''-m1''] r)) \<or>
          IsError (GetError dropped_server
             (snd (api_Run dropped_server w ''changes'' [''-m1''] r)))) \<and>
   int (unat (- 1 :: int32)) = 2 ^ 32 + sint (- 1 :: int32) \<and>
   reinitialize_calls (events (fst (after_attempts dropped_server ''changes'' [''-m1'']
       session0 (unat (- 1 :: int32))))) =
     reinitialize_calls (events session0) + unat (- 1 :: int32)"
proof -
  have h1: "(- 1 :: int32) <s 0" by (simp add: word_sless_alt)
  have h2: "\<forall>w r. api_Dropped dropped_server
      (fst (api_Run dropped_server w ''changes'' [''-m1''] r)) \<or>
          IsError (GetError dropped_server
             (snd (api_Run dropped_server w ''changes'' [''-m1''] r)))"
    by (simp add: dropped_server_def scripted_def)
  from RunEx_negative_budget [OF h1 h2, of "\<lparr>CommandRetries = 10, CommandRefreshThreshold = 100\<rparr>"
      session0] h1 h2
  show ?thesis by blast
qed

theorem RunEx_negative_budget_counterexample:
  "RunEx dropped_server \<lparr>CommandRetries = 10, CommandRefreshThreshold = 100\<rparr>
     ''changes'' [''-m1''] (- 1) session0 =
   Exited (session_of
     (RunEx dropped_server \<lparr>CommandRetries = 10, CommandRefreshThreshold = 100\<rparr>
        ''changes'' [''-m1''] (- 1) session0)) \<and>
   reinitialize_calls (events (session_of
     (RunEx dropped_server \<lparr>CommandRetries = 10, CommandRefreshThreshold = 100\<rparr>
        ''changes'' [''-m1''] (- 1) session0))) = 4294967295"
proof -
  let ?cfg = "\<lparr>CommandRetries = 10, CommandRefreshThreshold = 100\<rparr>"
  have h: "\<forall>w r. api_Dropped dropped_server
      (fst (api_Run dropped_server w ''changes'' [''-m1''] r))"
    by (simp add: dropped_server_def scripted_def)
  from RunEx_dropped [OF h, of ?cfg "- 1" session0] obtain s' where
    "RunEx dropped_server ?cfg ''changes'' [''-m1''] (- 1) session0 = Exited s'"
    by blast
  then have e: "RunEx dropped_server ?cfg ''changes'' [''-m1''] (- 1) session0 =
      Exited (session_of (RunEx dropped_server ?cfg ''changes'' [''-m1''] (- 1) session0))"
    by simp
  have "unat (- 1 :: int32) = 4294967295"
    using unat_negative [of "- 1"] by simp
  with RunEx_dropped_calls [OF h, of ?cfg "- 1" session0]
  have "reinitialize_calls (events (session_of
     (RunEx dropped_server ?cfg ''changes'' [''-m1''] (- 1) session0))) = 4294967295"
    by (simp add: session0_def reinitialize_calls_def)
  with e show ?thesis by blast
qed

subsection \<open>After the retry loop\<close>

text \<open>
  Claim C1, amended. Whenever the retry loop of \<^verbatim>\<open>RunEx\<close> has ended, the engine calls
  \<^verbatim>\<open>Deinitialize()\<close> and leaves the process right there if and only if the transport
  is still dropped or the error of the receiver is fatal. Otherwise, also when a
  recoverable error is left, it increments the usage counter. If the counter does not
  exceed the refresh threshold, it returns the receiver of the last attempt. If it does,
  the refresh loop runs on the session with the incremented counter, and the engine
  returns the same receiver unless the loop ends with its budget at zero, in which case it
  leaves the process.
\<close>

theorem RunEx_after_retry_loop:
  assumes "retry_loop env command args (fst (dispatch env command args s))
             (snd (dispatch env command args s)) commandRetries = (s1, clientUser)"
  shows "((\<exists>s'. RunEx env cfg command args commandRetries s = Exited s' \<and>
              events s' = events s1 @ [EvDeinitialize, EvExit 1]) \<longleftrightarrow>
            dropped_or_fatal env s1 clientUser) \<and>
     (dropped_or_fatal env s1 clientUser \<longrightarrow>
        RunEx env cfg command args commandRetries s =
          Exited (s1\<lparr>m_ClientAPI := fst (Deinitialize env (m_ClientAPI s1)),
                     events := events s1 @ [EvDeinitialize, EvExit 1]\<rparr>)) \<and>
     (\<not> dropped_or_fatal env s1 clientUser \<and>
      m_Usage s1 + 1 \<le>s CommandRefreshThreshold cfg \<longrightarrow>
        RunEx env cfg command args commandRetries s =
          Returned (s1\<lparr>m_Usage := m_Usage s1 + 1\<rparr>) clientUser) \<and>
     (\<not> dropped_or_fatal env s1 clientUser \<and>
      CommandRefreshThreshold cfg <s m_Usage s1 + 1 \<longrightarrow>
        (\<exists>s2 k.
           refresh_loop env (s1\<lparr>m_Usage := m_Usage s1 + 1\<rparr>) (CommandRetries cfg) = (s2, k) \<and>
           m_Usage s2 = m_Usage s1 + 1 \<and>
           RunEx env cfg command args commandRetries s =
             (if k = 0 then Exited (s2\<lparr>events := events s2 @ [EvExit 1]\<rparr>)
              else Returned s2 clientUser)))"
proof -
  have out: "RunEx env cfg command args commandRetries s = after_retries env cfg s1 clientUser"
    using assms by (simp add: RunEx_after_retries)
  show ?thesis
  proof (cases "dropped_or_fatal env s1 clientUser")
    case True
    with out have "RunEx env cfg command args commandRetries s =
        Exited (s1\<lparr>m_ClientAPI := fst (Deinitialize env (m_ClientAPI s1)),
                 events := events s1 @ [EvDeinitialize, EvExit 1]\<rparr>)"
      by (simp add: after_retries_fatal)
    with True show ?thesis by auto
  next
    case False
    with out have c: "RunEx env cfg command args commandRetries s =
        count_and_refresh env cfg s1 clientUser"
      by (simp add: after_retries_pass)
    have a: "\<not> (\<exists>s'. RunEx env cfg command args commandRetries s = Exited s' \<and>
                events s' = events s1 @ [EvDeinitialize, EvExit 1])"
    proof
      assume "\<exists>s'. RunEx env cfg command args commandRetries s = Exited s' \<and>
                events s' = events s1 @ [EvDeinitialize, EvExit 1]"
      then obtain s' where e: "RunEx env cfg command args commandRetries s = Exited s'"
        and ev: "events s' = events s1 @ [EvDeinitialize, EvExit 1]" by blast
      from count_and_refresh_Exited [of env cfg s1 clientUser s'] c e obtain xs where
        "events s' = events s1 @ xs @ [EvExit 1]" and n: "EvDeinitialize \<notin> set xs"
        by auto
      with ev have "xs = [EvDeinitialize]" by simp
      with n show False by simp
    qed
    have b: "m_Usage s1 + 1 \<le>s CommandRefreshThreshold cfg \<longrightarrow>
        RunEx env cfg command args commandRetries s =
          Returned (s1\<lparr>m_Usage := m_Usage s1 + 1\<rparr>) clientUser"
      using c by (simp add: count_and_refresh_below)
    let ?s1' = "s1\<lparr>m_Usage := m_Usage s1 + 1\<rparr>"
    let ?s2 = "fst (refresh_loop env ?s1' (CommandRetries cfg))"
    let ?k = "snd (refresh_loop env ?s1' (CommandRetries cfg))"
    have d: "CommandRefreshThreshold cfg <s m_Usage s1 + 1 \<longrightarrow>
        refresh_loop env ?s1' (CommandRetries cfg) = (?s2, ?k) \<and>
        m_Usage ?s2 = m_Usage s1 + 1 \<and>
        RunEx env cfg command args commandRetries s =
          (if ?k = 0 then Exited (?s2\<lparr>events := events ?s2 @ [EvExit 1]\<rparr>)
           else Returned ?s2 clientUser)"
      using c by (simp add: count_and_refresh_above m_Usage_refresh_loop)
    from False a b d show ?thesis by blast
  qed
qed

theorem RunEx_after_retry_loop_witness:
  "retry_loop failing_server ''describe'' [''42'']
     (fst (dispatch failing_server ''describe'' [''42''] session0))
     (snd (dispatch failing_server ''describe'' [''42''] session0)) 1 =
     (\<lparr>m_ClientAPI = \<lparr>n_dispatch = 2, n_init = 1, n_deinit = 1, is_dropped = False\<rparr>,
       m_Usage = 0,
       events = [EvNewReceiver, EvDispatch ''describe'' [''42''], EvSleep 5,
                 EvReinitialize True, EvNewReceiver, EvDispatch ''describe'' [''42'']]\<rparr>,
      Recoverable) \<and>
   IsError (GetError failing_server Recoverable) \<and>
   RunEx failing_server \<lparr>CommandRetries = 1, CommandRefreshThreshold = 100\<rparr>
     ''describe'' [''42''] 1 session0 =
     Returned
       \<lparr>m_ClientAPI = \<lparr>n_dispatch = 2, n_init = 1, n_deinit = 1, is_dropped = False\<rparr>,
        m_Usage = 1,
        events = [EvNewReceiver, EvDispatch ''describe'' [''42''], EvSleep 5,
                  EvReinitialize True, EvNewReceiver, EvDispatch ''describe'' [''42'']]\<rparr>
       Recoverable"
proof -
  let ?s1 = "\<lparr>m_ClientAPI = \<lparr>n_dispatch = 2, n_init = 1, n_deinit = 1, is_dropped = False\<rparr>,
       m_Usage = 0,
       events = [EvNewReceiver, EvDispatch ''describe'' [''42''], EvSleep 5,
                 EvReinitialize True, EvNewReceiver, EvDispatch ''describe'' [''42'']]\<rparr>"
  let ?cfg = "\<lparr>CommandRetries = 1, CommandRefreshThreshold = 100\<rparr>"
  have h: "retry_loop failing_server ''describe'' [''42'']
     (fst (dispatch failing_server ''describe'' [''42''] session0))
     (snd (dispatch failing_server ''describe'' [''42''] session0)) 1 = (?s1, Recoverable)"
    by (simp add: failing_server_def engine_defs loop_steps)
  have nf: "\<not> dropped_or_fatal failing_server ?s1 Recoverable"
    by (simp add: failing_server_def engine_defs)
  have le: "m_Usage ?s1 + 1 \<le>s CommandRefreshThreshold ?cfg"
    by (simp add: word_sle_eq)
  have e: "IsError (GetError failing_server Recoverable)"
    by (simp add: failing_server_def scripted_def)
  from RunEx_after_retry_loop [OF h, of ?cfg] nf le
  have "RunEx failing_server ?cfg ''describe'' [''42''] 1 session0 =
          Returned (?s1\<lparr>m_Usage := m_Usage ?s1 + 1\<rparr>) Recoverable"
    by blast
  with h e show ?thesis by simp
qed

theorem RunEx_refresh_exit_counterexample:
  "retry_loop no_reconnect_server ''info'' []
     (fst (dispatch no_reconnect_server ''info'' [] session0))
     (snd (dispatch no_reconnect_server ''info'' [] session0)) 1 =
     (\<lparr>m_ClientAPI = \<lparr>n_dispatch = 1, n_init = 0, n_deinit = 0, is_dropped = False\<rparr>,
       m_Usage = 0, events = [EvNewReceiver, EvDispatch ''info'' []]\<rparr>, NoError) \<and>
   \<not> dropped_or_fatal no_reconnect_server
     \<lparr>m_ClientAPI = \<lparr>n_dispatch = 1, n_init = 0, n_deinit = 0, is_dropped = False\<rparr>,
      m_Usage = 0, events = [EvNewReceiver, EvDispatch ''info'' []]\<rparr> NoError \<and>
   RunEx no_reconnect_server \<lparr>CommandRetries = 1, CommandRefreshThreshold = 0\<rparr>
     ''info'' [] 1 session0 =
     Exited
       \<lparr>m_ClientAPI = \<lparr>n_dispatch = 1, n_init = 1, n_deinit = 1, is_dropped = False\<rparr>,
        m_Usage = 1,
        events = [EvNewReceiver, EvDispatch ''info'' [], EvReinitialize False, EvSleep 5,
                  EvExit 1]\<rparr>"
  by (simp add: no_reconnect_server_def engine_defs loop_steps)

subsection \<open>A refresh with no budget\<close>

text \<open>
  Claim C9. When a call of \<^verbatim>\<open>RunEx\<close> passes the check after the retry loop, the global
  \<^verbatim>\<open>CommandRetries\<close> is 0 and the incremented usage counter is over the refresh
  threshold, the body of the refresh loop never runs (the loop hands back the session as
  it got it, with \<^verbatim>\<open>refreshRetries\<close> at 0) and the engine leaves the process at
  once: the log only grows by the exit, with no call of \<^verbatim>\<open>Reinitialize()\<close>.
\<close>

theorem RunEx_refresh_without_budget:
  assumes "retry_loop env command args (fst (dispatch env command args s))
             (snd (dispatch env command args s)) commandRetries = (s1, clientUser)"
    and "\<not> dropped_or_fatal env s1 clientUser"
    and "CommandRetries cfg = 0"
    and "CommandRefreshThreshold cfg <s m_Usage s1 + 1"
  shows "refresh_loop env (s1\<lparr>m_Usage := m_Usage s1 + 1\<rparr>) (CommandRetries cfg) =
           (s1\<lparr>m_Usage := m_Usage s1 + 1\<rparr>, 0) \<and>
         RunEx env cfg command args commandRetries s =
           Exited (s1\<lparr>m_Usage := m_Usage s1 + 1, events := events s1 @ [EvExit 1]\<rparr>)"
proof -
  have r: "refresh_loop env (s1\<lparr>m_Usage := m_Usage s1 + 1\<rparr>) (CommandRetries cfg) =
           (s1\<lparr>m_Usage := m_Usage s1 + 1\<rparr>, 0)"
    using assms(3) by (simp add: refresh_loop_nonpos word_sless_alt)
  have "RunEx env cfg command args commandRetries s = count_and_refresh env cfg s1 clientUser"
    using assms(1,2) by (simp add: RunEx_after_retries after_retries_pass)
  with r assms(4) show ?thesis
    by (simp add: count_and_refresh_above)
qed

theorem RunEx_refresh_without_budget_witness:
  "retry_loop healthy_server ''info'' [] (fst (dispatch healthy_server ''info'' [] session0))
     (snd (dispatch healthy_server ''info'' [] session0)) 3 =
     (\<lparr>m_ClientAPI = \<lparr>n_dispatch = 1, n_init = 0, n_deinit = 0, is_dropped = False\<rparr>,
       m_Usage = 0, events = [EvNewReceiver, EvDispatch ''info'' []]\<rparr>, NoError) \<and>
   \<not> dropped_or_fatal healthy_server
       \<lparr>m_ClientAPI = \<lparr>n_dispatch = 1, n_init = 0, n_deinit = 0, is_dropped = False\<rparr>,
        m_Usage = 0, events = [EvNewReceiver, EvDispatch ''info'' []]\<rparr> NoError \<and>
   RunEx healthy_server \<lparr>CommandRetries = 0, CommandRefreshThreshold = 0\<rparr> ''info'' [] 3
     session0 =
     Exited \<lparr>m_ClientAPI = \<lparr>n_dispatch = 1, n_init = 0, n_deinit = 0, is_dropped = False\<rparr>,
             m_Usage = 1,
             events = [EvNewReceiver, EvDispatch ''info'' [], EvExit 1]\<rparr>"
proof -
  let ?s1 = "\<lparr>m_ClientAPI = \<lparr>n_dispatch = 1, n_init = 0, n_deinit = 0, is_dropped = False\<rparr>,
              m_Usage = 0, events = [EvNewReceiver, EvDispatch ''info'' []]\<rparr>"
  let ?cfg = "\<lparr>CommandRetries = 0, CommandRefreshThreshold = 0\<rparr>"
  have h1: "retry_loop healthy_server ''info'' []
     (fst (dispatch healthy_server ''info'' [] session0))
     (snd (dispatch healthy_server ''info'' [] session0)) 3 = (?s1, NoError)"
    by (simp add: healthy_server_def engine_defs loop_steps)
  have h2: "\<not> dropped_or_fatal healthy_server ?s1 NoError"
    by (simp add: healthy_server_def engine_defs)
  have h3: "CommandRetries ?cfg = 0" by simp
  have h4: "CommandRefreshThreshold ?cfg <s m_Usage ?s1 + 1" by (simp add: word_sless_alt)
  from RunEx_refresh_without_budget [OF h1 h2 h3 h4] h1 h2 show ?thesis by simp
qed

subsection \<open>One turn of the retry loop\<close>

text \<open>
  Claim C6. In a turn of the retry loop that starts with the transport dropped or an
  error in the receiver and with a remaining budget greater than zero, the engine waits
  five seconds, calls \<^verbatim>\<open>Reinitialize()\<close>, and whatever that call returned
  builds a new receiver and dispatches the same command with the same arguments into it
  (the receiver of the turn before is not an input of the turn, so nothing of it is
  carried over); the loop then goes on with the budget decremented and tests the two
  signals again on the new connection state and the new receiver. When the remaining
  budget is zero the loop ends at once, with the session and the receiver as they are.
\<close>

theorem retry_loop_turn:
  assumes "dropped_or_error env s clientUser"
  shows "(0 <s retries \<longrightarrow>
      (\<exists>w1 ok w2 clientUser'.
         Reinitialize env (m_ClientAPI s) = (w1, ok) \<and>
         api_Run env w1 command args (new_T env) = (w2, clientUser') \<and>
         retry_loop env command args s clientUser retries =
           retry_loop env command args
             (s\<lparr>m_ClientAPI := w2,
                events := events s @ [EvSleep 5, EvReinitialize ok, EvNewReceiver,
                                      EvDispatch command args]\<rparr>)
             clientUser' (retries - 1))) \<and>
     (retries = 0 \<longrightarrow>
        retry_loop env command args s clientUser retries = (s, clientUser))"
proof (intro conjI impI)
  assume pos: "0 <s retries"
  then have nz: "retries \<noteq> 0" by (auto simp: word_sless_alt)
  obtain w1 ok where r: "Reinitialize env (m_ClientAPI s) = (w1, ok)"
    by (cases "Reinitialize env (m_ClientAPI s)")
  obtain w2 clientUser' where d: "api_Run env w1 command args (new_T env) = (w2, clientUser')"
    by (cases "api_Run env w1 command args (new_T env)")
  have b: "retry_body env command args s =
     (s\<lparr>m_ClientAPI := w2,
        events := events s @ [EvSleep 5, EvReinitialize ok, EvNewReceiver,
                              EvDispatch command args]\<rparr>, clientUser')"
    using r d
    by (simp add: retry_body_def dispatch_def P4API_Reinitialize_def sleep_for_def)
  have "retry_loop env command args s clientUser retries =
           retry_loop env command args
             (s\<lparr>m_ClientAPI := w2,
                events := events s @ [EvSleep 5, EvReinitialize ok, EvNewReceiver,
                                      EvDispatch command args]\<rparr>)
             clientUser' (retries - 1)"
    using assms nz b by (subst retry_loop.simps) simp
  with r d show "\<exists>w1 ok w2 clientUser'.
         Reinitialize env (m_ClientAPI s) = (w1, ok) \<and>
         api_Run env w1 command args (new_T env) = (w2, clientUser') \<and>
         retry_loop env command args s clientUser retries =
           retry_loop env command args
             (s\<lparr>m_ClientAPI := w2,
                events := events s @ [EvSleep 5, EvReinitialize ok, EvNewReceiver,
                                      EvDispatch command args]\<rparr>)
             clientUser' (retries - 1)"
    by blast
next
  assume "retries = 0"
  then show "retry_loop env command args s clientUser retries = (s, clientUser)"
    by (simp add: retry_loop_zero)
qed

theorem retry_loop_turn_witness:
  "dropped_or_error flaky_server
     \<lparr>m_ClientAPI = \<lparr>n_dispatch = 1, n_init = 0, n_deinit = 0, is_dropped = False\<rparr>,
      m_Usage = 0, events = [EvNewReceiver, EvDispatch ''users'' []]\<rparr> Recoverable \<and>
   (0 :: int32) <s 2 \<and>
   retry_loop flaky_server ''users'' []
     \<lparr>m_ClientAPI = \<lparr>n_dispatch = 1, n_init = 0, n_deinit = 0, is_dropped = False\<rparr>,
      m_Usage = 0, events = [EvNewReceiver, EvDispatch ''users'' []]\<rparr> Recoverable 2 =
   retry_loop flaky_server ''users'' []
     \<lparr>m_ClientAPI = \<lparr>n_dispatch = 2, n_init = 1, n_deinit = 1, is_dropped = False\<rparr>,
      m_Usage = 0,
      events = [EvNewReceiver, EvDispatch ''users'' [], EvSleep 5, EvReinitialize True,
                EvNewReceiver, EvDispatch ''users'' []]\<rparr> NoError 1 \<and>
   retry_loop flaky_server ''users'' []
     \<lparr>m_ClientAPI = \<lparr>n_dispatch = 1, n_init = 0, n_deinit = 0, is_dropped = False\<rparr>,
      m_Usage = 0, events = [EvNewReceiver, EvDispatch ''users'' []]\<rparr> Recoverable 0 =
   (\<lparr>m_ClientAPI = \<lparr>n_dispatch = 1, n_init = 0, n_deinit = 0, is_dropped = False\<rparr>,
     m_Usage = 0, events = [EvNewReceiver, EvDispatch ''users'' []]\<rparr>, Recoverable)"
proof -
  let ?s = "\<lparr>m_ClientAPI = \<lparr>n_dispatch = 1, n_init = 0, n_deinit = 0, is_dropped = False\<rparr>,
      m_Usage = 0, events = [EvNewReceiver, EvDispatch ''users'' []]\<rparr>"
  have h: "dropped_or_error flaky_server ?s Recoverable"
    by (simp add: flaky_server_def engine_defs)
  have p: "(0 :: int32) <s 2" by (simp add: word_sless_alt)
  from retry_loop_turn [OF h, of 2 "''users''" "[]"] p obtain w1 ok w2 clientUser' where
    a: "Reinitialize flaky_server (m_ClientAPI ?s) = (w1, ok)"
    and b: "api_Run flaky_server w1 ''users'' [] (new_T flaky_server) = (w2, clientUser')"
    and c: "retry_loop flaky_server ''users'' [] ?s Recoverable 2 =
           retry_loop flaky_server ''users'' []
             (?s\<lparr>m_ClientAPI := w2,
                events := events ?s @ [EvSleep 5, EvReinitialize ok, EvNewReceiver,
                                      EvDispatch ''users'' []]\<rparr>)
             clientUser' (2 - 1)"
    by blast
  from a have a': "w1 = \<lparr>n_dispatch = 1, n_init = 1, n_deinit = 1, is_dropped = False\<rparr>"
    "ok = True"
    by (auto simp add: flaky_server_def scripted_def Reinitialize_def)
  from b a' have b': "w2 = \<lparr>n_dispatch = 2, n_init = 1, n_deinit = 1, is_dropped = False\<rparr>"
    "clientUser' = NoError"
    by (auto simp add: flaky_server_def scripted_def)
  have z: "retry_loop flaky_server ''users'' [] ?s Recoverable 0 = (?s, Recoverable)"
    using retry_loop_turn [OF h, of 0 "''users''" "[]"] by simp
  from c a' b' z h p show ?thesis by simp
qed

subsection \<open>An error that clears at the first retry\<close>

text \<open>
  Claim C7, amended. When the first dispatch of a call of \<^verbatim>\<open>RunEx\<close> leaves the
  transport dropped or an error in the receiver, the dispatch of the first retry leaves
  neither, the budget is not zero, and the incremented usage counter does not exceed the
  refresh threshold, the engine returns a receiver without error over a connected
  transport after exactly one call of \<^verbatim>\<open>Reinitialize()\<close>, whatever the budget is.
\<close>

theorem RunEx_first_retry_clears:
  assumes "dropped_or_error env (fst (after_attempts env command args s 0))
             (snd (after_attempts env command args s 0))"
    and "\<not> dropped_or_error env (fst (after_attempts env command args s (Suc 0)))
             (snd (after_attempts env command args s (Suc 0)))"
    and "commandRetries \<noteq> 0"
    and "m_Usage s + 1 \<le>s CommandRefreshThreshold cfg"
  shows "\<exists>s' clientUser ok.
     RunEx env cfg command args commandRetries s = Returned s' clientUser \<and>
     \<not> IsError (GetError env clientUser) \<and> \<not> api_Dropped env (m_ClientAPI s') \<and>
     events s' = events s @ [EvNewReceiver, EvDispatch command args, EvSleep 5,
                             EvReinitialize ok, EvNewReceiver, EvDispatch command args] \<and>
     reinitialize_calls (events s') = reinitialize_calls (events s) + 1 \<and>
     m_Usage s' = m_Usage s + 1"
proof -
  let ?s0 = "fst (dispatch env command args s)"
  let ?r0 = "snd (dispatch env command args s)"
  let ?s1 = "fst (retry_body env command args ?s0)"
  let ?r1 = "snd (retry_body env command args ?s0)"
  let ?ok = "snd (Reinitialize env (m_ClientAPI ?s0))"
  let ?s' = "?s1\<lparr>m_Usage := m_Usage ?s1 + 1\<rparr>"
  from assms(1) have sig: "dropped_or_error env ?s0 ?r0" by simp
  from assms(2) have clean: "\<not> dropped_or_error env ?s1 ?r1" by simp
  have "retry_loop env command args ?s0 ?r0 commandRetries =
        retry_loop env command args ?s1 ?r1 (commandRetries - 1)"
    using sig assms(3) by (rule retry_loop_step)
  also have "\<dots> = (?s1, ?r1)"
    using clean by (rule retry_loop_clean)
  finally have l: "retry_loop env command args ?s0 ?r0 commandRetries = (?s1, ?r1)" .
  have nf: "\<not> dropped_or_fatal env ?s1 ?r1"
    using clean dropped_or_fatal_error [of env ?s1 ?r1] by blast
  have u: "m_Usage ?s1 = m_Usage s"
    by (simp add: m_Usage_retry_body m_Usage_dispatch)
  have r: "RunEx env cfg command args commandRetries s = Returned ?s' ?r1"
    using nf assms(4) u
    by (simp add: RunEx_after_retries l after_retries_pass count_and_refresh_below)
  have e: "events ?s' = events s @ [EvNewReceiver, EvDispatch command args, EvSleep 5,
                             EvReinitialize ?ok, EvNewReceiver, EvDispatch command args]"
    by (simp add: events_retry_body events_dispatch)
  have c: "reinitialize_calls (events ?s') = reinitialize_calls (events s) + 1"
    unfolding e by (simp add: reinitialize_calls_def)
  from clean have "\<not> IsError (GetError env ?r1)" "\<not> api_Dropped env (m_ClientAPI ?s')"
    by (simp_all add: dropped_or_error_def)
  with r e c u show ?thesis by auto
qed

theorem RunEx_first_retry_clears_witness:
  "dropped_or_error flaky_server
     (fst (after_attempts flaky_server ''changes'' [''//depot/...''] session0 0))
     (snd (after_attempts flaky_server ''changes'' [''//depot/...''] session0 0)) \<and>
   \<not> dropped_or_error flaky_server
     (fst (after_attempts flaky_server ''changes'' [''//depot/...''] session0 (Suc 0)))
     (snd (after_attempts flaky_server ''changes'' [''//depot/...''] session0 (Suc 0))) \<and>
   (3 :: int32) \<noteq> 0 \<and>
   m_Usage session0 + 1 \<le>s
     CommandRefreshThreshold \<lparr>CommandRetries = 3, CommandRefreshThreshold = 100\<rparr> \<and>
   (\<exists>s' clientUser ok.
     RunEx flaky_server \<lparr>CommandRetries = 3, CommandRefreshThreshold = 100\<rparr>
       ''changes'' [''//depot/...''] 3 session0 = Returned s' clientUser \<and>
     \<not> IsError (GetError flaky_server clientUser) \<and>
     \<not> api_Dropped flaky_server (m_ClientAPI s') \<and>
     events s' = events session0 @
       [EvNewReceiver, EvDispatch ''changes'' [''//depot/...''], EvSleep 5,
        EvReinitialize ok, EvNewReceiver, EvDispatch ''changes'' [''//depot/...'']] \<and>
     reinitialize_calls (events s') = reinitialize_calls (events session0) + 1 \<and>
     m_Usage s' = m_Usage session0 + 1)"
proof -
  let ?cfg = "\<lparr>CommandRetries = 3, CommandRefreshThreshold = 100\<rparr>"
  have h1: "dropped_or_error flaky_server
     (fst (after_attempts flaky_server ''changes'' [''//depot/...''] session0 0))
     (snd (after_attempts flaky_server ''changes'' [''//depot/...''] session0 0))"
    by (simp add: flaky_server_def engine_defs)
  have h2: "\<not> dropped_or_error flaky_server
     (fst (after_attempts flaky_server ''changes'' [''//depot/...''] session0 (Suc 0)))
     (snd (after_attempts flaky_server ''changes'' [''//depot/...''] session0 (Suc 0)))"
    by (simp add: flaky_server_def engine_defs)
  have h3: "(3 :: int32) \<noteq> 0" by simp
  have h4: "m_Usage session0 + 1 \<le>s CommandRefreshThreshold ?cfg"
    by (simp add: session0_def word_sle_eq)
  from RunEx_first_retry_clears [OF h1 h2 h3 h4] h1 h2 h3 h4 show ?thesis by blast
qed

theorem RunEx_first_retry_clears_counterexample:
  "dropped_or_error flaky_server
     (fst (after_attempts flaky_server ''changes'' [''//depot/...''] session0 0))
     (snd (after_attempts flaky_server ''changes'' [''//depot/...''] session0 0)) \<and>
   \<not> dropped_or_error flaky_server
     (fst (after_attempts flaky_server ''changes'' [''//depot/...''] session0 (Suc 0)))
     (snd (after_attempts flaky_server ''changes'' [''//depot/...''] session0 (Suc 0))) \<and>
   RunEx flaky_server \<lparr>CommandRetries = 1, CommandRefreshThreshold = 0\<rparr>
     ''changes'' [''//depot/...''] 1 session0 =
     Returned
       \<lparr>m_ClientAPI = \<lparr>n_dispatch = 2, n_init = 2, n_deinit = 2, is_dropped = False\<rparr>,
        m_Usage = 1,
        events = [EvNewReceiver, EvDispatch ''changes'' [''//depot/...''], EvSleep 5,
                  EvReinitialize True, EvNewReceiver,
                  EvDispatch ''changes'' [''//depot/...''], EvReinitialize True]\<rparr>
       NoError \<and>
   reinitialize_calls
     [EvNewReceiver, EvDispatch ''changes'' [''//depot/...''], EvSleep 5,
      EvReinitialize True, EvNewReceiver,
      EvDispatch ''changes'' [''//depot/...''], EvReinitialize True] = 2"
  by (simp add: flaky_server_def engine_defs loop_steps reinitialize_calls_def)

subsection \<open>A refresh that fails\<close>

text \<open>
  Claim C3 says that, when the usage counter is over the threshold and the refresh has
  used up its budget without a successful \<^verbatim>\<open>Reinitialize()\<close>, the engine deinitializes
  the session and then leaves the process. The exit of line 169 has no call of
  \<^verbatim>\<open>Deinitialize()\<close> before it, unlike the exit of line 145, so the session is closed
  only if a call of \<^verbatim>\<open>Reinitialize()\<close> closed it. Here is the run with the global budget
  at 0 and the threshold at 0: the command is answered well, the refresh loop makes no
  turn, and the process is left with the connection as the dispatch left it, never closed.
\<close>

theorem RunEx_refresh_failure_run:
  "RunEx no_reconnect_server \<lparr>CommandRetries = 0, CommandRefreshThreshold = 0\<rparr>
     ''sync'' [] 0 session0 =
     Exited
       \<lparr>m_ClientAPI = \<lparr>n_dispatch = 1, n_init = 0, n_deinit = 0, is_dropped = False\<rparr>,
        m_Usage = 1,
        events = [EvNewReceiver, EvDispatch ''sync'' [], EvExit 1]\<rparr>"
  by (simp add: no_reconnect_server_def engine_defs loop_steps)

subsection \<open>The usage counter\<close>






subsection \<open>The refresh past the threshold\<close>




section \<open>Properties of the client view\<close>

lemma foldl_last_match:
  "foldl (\<lambda>found rule. if P rule then Some rule else found) found0 rules =
     (if filter P rules = [] then found0 else Some (last (filter P rules)))"
  by (induction rules arbitrary: found0) auto

lemma last_match_filter:
  "last_match matches view p =
     (if filter (\<lambda>r. matches (depot_pattern r) p) view = [] then None
      else Some (last (filter (\<lambda>r. matches (depot_pattern r) p) view)))"
  unfolding last_match_def by (rule foldl_last_match)

text \<open>
  Claim C8. \<^verbatim>\<open>IsDepotPathUnderClientSpec\<close> reads the ordered rules with the last match
  winning: a depot path is under the client spec if and only if it matches at least one
  rule that includes and the last rule of the list that matches it is not one that
  excludes. For the two rules \<^verbatim>\<open>//depot/main/...\<close> (include) and
  \<^verbatim>\<open>//depot/main/secret/...\<close> (exclude), in this order, a path that matches the first
  pattern is under the client spec exactly when it does not match the second.
\<close>

theorem IsDepotPathUnderClientSpec_last_match_wins:
  "(IsDepotPathUnderClientSpec matches view p \<longleftrightarrow>
      (\<exists>r \<in> set view. included r \<and> matches (depot_pattern r) p) \<and>
      included (last (filter (\<lambda>r. matches (depot_pattern r) p) view))) \<and>
   (matches ''//depot/main/...'' q \<longrightarrow>
      IsDepotPathUnderClientSpec matches
        [\<lparr>depot_pattern = ''//depot/main/...'', client_pattern = c1, included = True\<rparr>,
         \<lparr>depot_pattern = ''//depot/main/secret/...'', client_pattern = c2,
          included = False\<rparr>] q =
      (\<not> matches ''//depot/main/secret/...'' q))"
proof (intro conjI impI)
  let ?ms = "filter (\<lambda>r. matches (depot_pattern r) p) view"
  show "IsDepotPathUnderClientSpec matches view p \<longleftrightarrow>
      (\<exists>r \<in> set view. included r \<and> matches (depot_pattern r) p) \<and> included (last ?ms)"
  proof (cases "?ms = []")
    case True
    then have "\<not> (\<exists>r \<in> set view. included r \<and> matches (depot_pattern r) p)"
      by (auto simp: filter_empty_conv)
    with True show ?thesis
      by (simp add: IsDepotPathUnderClientSpec_def last_match_filter)
  next
    case False
    then have "last ?ms \<in> set ?ms" by (rule last_in_set)
    then have "last ?ms \<in> set view \<and> matches (depot_pattern (last ?ms)) p" by simp
    with False show ?thesis
      by (auto simp: IsDepotPathUnderClientSpec_def last_match_filter)
  qed
next
  assume "matches ''//depot/main/...'' q"
  then show "IsDepotPathUnderClientSpec matches
        [\<lparr>depot_pattern = ''//depot/main/...'', client_pattern = c1, included = True\<rparr>,
         \<lparr>depot_pattern = ''//depot/main/secret/...'', client_pattern = c2,
          included = False\<rparr>] q =
      (\<not> matches ''//depot/main/secret/...'' q)"
    by (simp add: IsDepotPathUnderClientSpec_def last_match_def)
qed

theorem IsDepotPathUnderClientSpec_last_match_wins_witness:
  "dots_match ''//depot/main/...'' ''//depot/main/secret/key.pem'' \<and>
   dots_match ''//depot/main/secret/...'' ''//depot/main/secret/key.pem'' \<and>
   \<not> IsDepotPathUnderClientSpec dots_match main_view ''//depot/main/secret/key.pem'' \<and>
   dots_match ''//depot/main/...'' ''//depot/main/foo.txt'' \<and>
   \<not> dots_match ''//depot/main/secret/...'' ''//depot/main/foo.txt'' \<and>
   IsDepotPathUnderClientSpec dots_match main_view ''//depot/main/foo.txt'' \<and>
   \<not> IsDepotPathUnderClientSpec dots_match main_view ''//depot/other/foo.txt''"
proof -
  have a: "dots_match ''//depot/main/...'' ''//depot/main/secret/key.pem''" by simp
  have b: "dots_match ''//depot/main/secret/...'' ''//depot/main/secret/key.pem''" by simp
  have c: "dots_match ''//depot/main/...'' ''//depot/main/foo.txt''" by simp
  have d: "\<not> dots_match ''//depot/main/secret/...'' ''//depot/main/foo.txt''" by simp
  note T = IsDepotPathUnderClientSpec_last_match_wins
  from T [of dots_match main_view "''//depot/main/secret/key.pem''"
        "''//depot/main/secret/key.pem''" "''//ws/main/...''" "''//ws/main/secret/...''"] a b
  have e: "\<not> IsDepotPathUnderClientSpec dots_match main_view ''//depot/main/secret/key.pem''"
    by (simp add: main_view_def)
  from T [of dots_match main_view "''//depot/main/foo.txt''"
        "''//depot/main/foo.txt''" "''//ws/main/...''" "''//ws/main/secret/...''"] c d
  have f: "IsDepotPathUnderClientSpec dots_match main_view ''//depot/main/foo.txt''"
    by (simp add: main_view_def)
  have g: "\<not> IsDepotPathUnderClientSpec dots_match main_view ''//depot/other/foo.txt''"
    using T [of dots_match main_view "''//depot/other/foo.txt''", THEN conjunct1]
    by (simp add: main_view_def)
  from a b c d e f g show ?thesis by blast
qed

end
